theory Spec2Isabelle
  imports Complex_Main "HOL-Library.Option_ord"
begin

section \<open>Python values, exceptions and the operating system\<close>

text \<open>
  The program is one Python file, \<^verbatim>\<open>taskmgr.py\<close>: a sampling thread
  (\<^verbatim>\<open>SystemMonitor\<close>) and a window (\<^verbatim>\<open>SystemDashboard\<close>) that shows the
  samples and holds the pinned pid. Every call into \<^verbatim>\<open>psutil\<close>, \<^verbatim>\<open>GPUtil\<close>
  or the file system either returns a value or raises; the model takes the outcome of each
  call as an input (a field of \<open>os_env\<close> or \<open>proc_env\<close>), \<open>Inl\<close> being the raised
  exception. All exceptions modelled are subclasses of Python's \<^verbatim>\<open>Exception\<close>, so
  \<^verbatim>\<open>except Exception\<close> and a bare \<^verbatim>\<open>except\<close> catch each of them.
  Python floats are read as rationals: only their order and their arithmetic on exact values
  are used.
\<close>

datatype py_error =
    OSError
  | PermissionError
  | NotImplementedError
  | NoSuchProcess
  | AccessDenied
  | AttributeError
  | TypeError
  | ValueError

type_synonym 'a result = "py_error + 'a"

record svmem =
  vm_total :: nat
  vm_used :: nat
  vm_percent :: rat

record sdiskpart =
  device :: string
  mountpoint :: string

record sdiskusage =
  du_total :: nat
  du_used :: nat
  du_percent :: rat

record gpu_dev =
  dev_name :: string
  dev_memoryUsed :: rat
  dev_memoryTotal :: rat
  dev_load :: rat
  dev_temperature :: rat

text \<open>
  \<^verbatim>\<open>p.info\<close> of \<^verbatim>\<open>psutil.process_iter(attrs)\<close>: an attribute the process does not
  let the caller read is \<^verbatim>\<open>None\<close>.
\<close>

record pinfo =
  info_pid :: int
  info_name :: "string option"
  info_cpu_percent :: "rat option"
  info_memory_info :: "nat option"

record snetio =
  io_bytes_sent :: nat
  io_bytes_recv :: nat

text \<open>
  A Python dict is an association list with distinct keys, in the dict's iteration order;
  \<^verbatim>\<open>k in d\<close> and \<^verbatim>\<open>d[k]\<close> are \<open>map_of\<close>.

  \<open>cpu_model_read\<close> and \<open>cpu_temp_read\<close> are the outcomes of the \<^verbatim>\<open>try\<close> bodies
  of \<^verbatim>\<open>_get_cpu_model\<close> and \<^verbatim>\<open>_get_cpu_temp\<close> (reading \<^verbatim>\<open>/proc/cpuinfo\<close>
  and the thermal zone files): the text returned, \<open>None\<close> where the body of
  \<^verbatim>\<open>_get_cpu_temp\<close> runs to its end without a \<^verbatim>\<open>return\<close>, or the exception raised.
\<close>

record os_env =
  cpu_model_read :: "string result"
  cpu_temp_read :: "string option result"
  psutil_cpu_freq :: "rat option result"
  psutil_cpu_count_physical :: "nat option result"
  psutil_cpu_count_logical :: "nat option result"
  psutil_cpu_percent :: "rat result"
  GPUtil_getGPUs :: "gpu_dev list result"
  psutil_virtual_memory :: "svmem result"
  psutil_disk_partitions :: "sdiskpart list result"
  psutil_disk_usage :: "string \<Rightarrow> sdiskusage result"
  psutil_process_iter :: "pinfo list result"
  psutil_net_io_counters :: "snetio option result"
  psutil_net_if_addrs :: "(string \<times> string list) list result"
  psutil_net_if_stats :: "(string \<times> bool) list result"

section \<open>The snapshot\<close>

datatype frequency = GHz rat | Frequency_NA

record cpu_data =
  Model :: string
  Cores :: "nat option \<times> nat option"
  Frequency :: frequency
  Temperature :: "string option"
  Load :: rat

record gpu_data =
  gpu_name :: string
  gpu_memory :: "rat \<times> rat"
  gpu_load :: rat
  gpu_temp :: rat

record memory_data =
  mem_total :: nat
  mem_used :: nat
  mem_percent :: rat

record disk_data =
  disk_device :: string
  disk_mount :: string
  disk_total :: nat
  disk_used :: nat
  disk_percent :: rat

text \<open>A process row is the tuple \<^verbatim>\<open>(pid, name, cpu_percent, rss)\<close>.\<close>

type_synonym proc_row = "int \<times> string \<times> rat option \<times> nat"

fun row_pid :: "proc_row \<Rightarrow> int" where
  "row_pid (pid, name, cpu, rss) = pid"

fun row_name :: "proc_row \<Rightarrow> string" where
  "row_name (pid, name, cpu, rss) = name"

fun row_cpu :: "proc_row \<Rightarrow> rat option" where
  "row_cpu (pid, name, cpu, rss) = cpu"

fun row_rss :: "proc_row \<Rightarrow> nat" where
  "row_rss (pid, name, cpu, rss) = rss"

record iface_stats =
  bytes_sent :: nat
  bytes_recv :: nat
  is_up :: bool

record iface_data =
  addresses :: "string list"
  stats :: iface_stats

record network_data =
  interfaces :: "(string \<times> iface_data) list"

record snapshot =
  cpu :: cpu_data
  gpu :: "gpu_data list"
  memory :: memory_data
  disk :: "disk_data list"
  processes :: "proc_row list"
  network :: network_data

section \<open>SystemMonitor: the six collectors\<close>

text \<open>\<^verbatim>\<open>_get_cpu_model\<close>: any exception of the body becomes the text \<^verbatim>\<open>Unknown\<close>.\<close>

definition get_cpu_model :: "os_env \<Rightarrow> string" where
  "get_cpu_model env =
     (case cpu_model_read env of Inl e \<Rightarrow> ''Unknown'' | Inr s \<Rightarrow> s)"

text \<open>
  \<^verbatim>\<open>_get_cpu_temp\<close>: any exception of the body becomes \<^verbatim>\<open>N/A\<close>; a body that ends
  without returning gives \<^verbatim>\<open>None\<close>.
\<close>

definition get_cpu_temp :: "os_env \<Rightarrow> string option" where
  "get_cpu_temp env =
     (case cpu_temp_read env of Inl e \<Rightarrow> Some ''N/A'' | Inr t \<Rightarrow> t)"

text \<open>
  \<^verbatim>\<open>_get_cpu_data\<close>: \<^verbatim>\<open>psutil.cpu_freq()\<close> is called first, then the dict literal is
  evaluated in the order of its keys. A field that the code fills with an f-string holds
  here the value that is formatted: \<open>Cores\<close> the two counts, \<open>Frequency\<close> the quotient by 1000.
  The rounding of the format \<^verbatim>\<open>.1f\<close> and of the float division is not part of the model.
\<close>

definition get_cpu_data :: "os_env \<Rightarrow> cpu_data result" where
  "get_cpu_data env =
     (case psutil_cpu_freq env of Inl e \<Rightarrow> Inl e | Inr freq \<Rightarrow>
      (case psutil_cpu_count_physical env of Inl e \<Rightarrow> Inl e | Inr phys \<Rightarrow>
       (case psutil_cpu_count_logical env of Inl e \<Rightarrow> Inl e | Inr logical \<Rightarrow>
        (case psutil_cpu_percent env of Inl e \<Rightarrow> Inl e | Inr load \<Rightarrow>
           Inr \<lparr>Model = get_cpu_model env,
                Cores = (phys, logical),
                Frequency = (case freq of None \<Rightarrow> Frequency_NA | Some cur \<Rightarrow> GHz (cur / 1000)),
                Temperature = get_cpu_temp env,
                Load = load\<rparr>))))"

text \<open>
  \<^verbatim>\<open>_get_gpu_data\<close>: \<open>gpu_memory\<close> holds the two values that the f-string formats with
  \<^verbatim>\<open>.1f\<close> and \<^verbatim>\<open>.0f\<close>, and \<open>gpu_load\<close> the exact product where the code has the
  float product; the rounding is not part of the model.
\<close>

definition get_gpu_data :: "os_env \<Rightarrow> gpu_data list result" where
  "get_gpu_data env =
     (case GPUtil_getGPUs env of Inl e \<Rightarrow> Inl e | Inr gpus \<Rightarrow>
        Inr (map (\<lambda>g. \<lparr>gpu_name = dev_name g,
                         gpu_memory = (dev_memoryUsed g, dev_memoryTotal g),
                         gpu_load = dev_load g * 100,
                         gpu_temp = dev_temperature g\<rparr>) gpus))"

definition get_memory_data :: "os_env \<Rightarrow> memory_data result" where
  "get_memory_data env =
     (case psutil_virtual_memory env of Inl e \<Rightarrow> Inl e | Inr mem \<Rightarrow>
        Inr \<lparr>mem_total = vm_total mem, mem_used = vm_used mem, mem_percent = vm_percent mem\<rparr>)"

text \<open>\<^verbatim>\<open>s.split('/')[-1]\<close>: the text after the last slash, all of \<open>s\<close> when it has none.\<close>

definition split_last :: "string \<Rightarrow> string" where
  "split_last s = rev (takeWhile (\<lambda>c. c \<noteq> CHR ''/'') (rev s))"

text \<open>
  The list comprehension of \<^verbatim>\<open>_get_disk_data\<close>: partitions with an empty mount point
  are skipped, and \<^verbatim>\<open>psutil.disk_usage\<close> is called once for each of the others.
\<close>

fun disk_rows :: "(string \<Rightarrow> sdiskusage result) \<Rightarrow> sdiskpart list \<Rightarrow> disk_data list result" where
  "disk_rows usage [] = Inr []"
| "disk_rows usage (part # parts) =
     (if mountpoint part = [] then disk_rows usage parts
      else (case usage (mountpoint part) of Inl e \<Rightarrow> Inl e | Inr du \<Rightarrow>
            (case disk_rows usage parts of Inl e \<Rightarrow> Inl e | Inr rest \<Rightarrow>
               Inr (\<lparr>disk_device = split_last (device part),
                     disk_mount = mountpoint part,
                     disk_total = du_total du,
                     disk_used = du_used du,
                     disk_percent = du_percent du\<rparr> # rest))))"

definition get_disk_data :: "os_env \<Rightarrow> disk_data list result" where
  "get_disk_data env =
     (case psutil_disk_partitions env of Inl e \<Rightarrow> Inl e
      | Inr parts \<Rightarrow> disk_rows (psutil_disk_usage env) parts)"

text \<open>
  The list comprehension of \<^verbatim>\<open>_get_process_data\<close>: a process whose name is
  \<^verbatim>\<open>None\<close> or empty is skipped; \<^verbatim>\<open>p.info['memory_info'].rss\<close> raises
  \<^verbatim>\<open>AttributeError\<close> where the memory information is \<^verbatim>\<open>None\<close>.
\<close>

fun process_rows :: "pinfo list \<Rightarrow> proc_row list result" where
  "process_rows [] = Inr []"
| "process_rows (p # ps) =
     (case info_name p of
        None \<Rightarrow> process_rows ps
      | Some n \<Rightarrow>
          if n = [] then process_rows ps
          else (case info_memory_info p of None \<Rightarrow> Inl AttributeError | Some rss \<Rightarrow>
                (case process_rows ps of Inl e \<Rightarrow> Inl e | Inr rows \<Rightarrow>
                   Inr ((info_pid p, n, info_cpu_percent p, rss) # rows))))"

text \<open>
  \<^verbatim>\<open>sorted(xs, key=f, reverse=True)\<close>: a stable sort into descending order of the key,
  which leaves elements of equal key in the order they had in \<open>xs\<close>. Python reverses the
  list, sorts it stably into ascending order and reverses the result.
\<close>

definition sorted_reverse :: "('a \<Rightarrow> 'k::linorder) \<Rightarrow> 'a list \<Rightarrow> 'a list" where
  "sorted_reverse f xs = rev (sort_key f (rev xs))"

text \<open>
  \<^verbatim>\<open>_get_process_data\<close>. Comparing \<^verbatim>\<open>None\<close> with a float or with \<^verbatim>\<open>None\<close> raises
  \<^verbatim>\<open>TypeError\<close>; a sort of two or more elements compares every element at least once,
  a sort of fewer compares nothing. The slice \<^verbatim>\<open>[:100]\<close> is applied to the sorted list.
\<close>

definition get_process_data :: "os_env \<Rightarrow> proc_row list result" where
  "get_process_data env =
     (case psutil_process_iter env of Inl e \<Rightarrow> Inl e | Inr ps \<Rightarrow>
      (case process_rows ps of Inl e \<Rightarrow> Inl e | Inr rows \<Rightarrow>
         if 2 \<le> length rows \<and> (\<exists>r \<in> set rows. row_cpu r = None) then Inl TypeError
         else Inr (take 100 (sorted_reverse row_cpu rows))))"

text \<open>
  The dict comprehension of \<^verbatim>\<open>_get_network_data\<close>, one entry for each key of
  \<^verbatim>\<open>addrs\<close>. \<^verbatim>\<open>psutil.net_io_counters()\<close> returns \<^verbatim>\<open>None\<close> on a host without
  counters, and then \<^verbatim>\<open>net.bytes_sent\<close> raises \<^verbatim>\<open>AttributeError\<close> at the first entry.
\<close>

definition iface_entry :: "snetio \<Rightarrow> (string \<times> bool) list \<Rightarrow> string \<times> string list \<Rightarrow> string \<times> iface_data" where
  "iface_entry net sts kv =
     (fst kv,
      \<lparr>addresses = snd kv,
       stats = \<lparr>bytes_sent = io_bytes_sent net,
                bytes_recv = io_bytes_recv net,
                is_up = (case map_of sts (fst kv) of Some up \<Rightarrow> up | None \<Rightarrow> False)\<rparr>\<rparr>)"

definition get_network_data :: "os_env \<Rightarrow> network_data result" where
  "get_network_data env =
     (case psutil_net_io_counters env of Inl e \<Rightarrow> Inl e | Inr net \<Rightarrow>
      (case psutil_net_if_addrs env of Inl e \<Rightarrow> Inl e | Inr addrs \<Rightarrow>
       (case psutil_net_if_stats env of Inl e \<Rightarrow> Inl e | Inr sts \<Rightarrow>
          (case net of
             None \<Rightarrow> if addrs = [] then Inr \<lparr>interfaces = []\<rparr> else Inl AttributeError
           | Some n \<Rightarrow> Inr \<lparr>interfaces = map (iface_entry n sts) addrs\<rparr>))))"

section \<open>SystemMonitor.run\<close>

text \<open>
  The dict literal of \<^verbatim>\<open>run\<close>: the six collectors are called in the order of the keys,
  and the first exception leaves the literal.
\<close>

definition collect_data :: "os_env \<Rightarrow> snapshot result" where
  "collect_data env =
     (case get_cpu_data env of Inl e \<Rightarrow> Inl e | Inr c \<Rightarrow>
      (case get_gpu_data env of Inl e \<Rightarrow> Inl e | Inr g \<Rightarrow>
       (case get_memory_data env of Inl e \<Rightarrow> Inl e | Inr m \<Rightarrow>
        (case get_disk_data env of Inl e \<Rightarrow> Inl e | Inr d \<Rightarrow>
         (case get_process_data env of Inl e \<Rightarrow> Inl e | Inr p \<Rightarrow>
          (case get_network_data env of Inl e \<Rightarrow> Inl e | Inr n \<Rightarrow>
             Inr \<lparr>cpu = c, gpu = g, memory = m, disk = d, processes = p, network = n\<rparr>))))))"

text \<open>
  What the thread does that can be observed: it emits a snapshot, sleeps, or prints the
  message of a caught exception.
\<close>

datatype monitor_event =
    Emitted snapshot
  | Slept nat
  | Printed py_error

text \<open>One pass through the body of \<^verbatim>\<open>while True\<close>.\<close>

definition cycle :: "os_env \<Rightarrow> monitor_event list" where
  "cycle env =
     (case collect_data env of
        Inr data \<Rightarrow> [Emitted data, Slept 3500]
      | Inl e \<Rightarrow> [Printed e])"

text \<open>
  \<^verbatim>\<open>run\<close> never returns. Its trace is given for a finite run of passes, each pass with
  the state of the machine it meets: \<open>run envs\<close> is what the thread has done once it has
  gone through \<open>length envs\<close> passes, and it is defined for every such list.
\<close>

fun run :: "os_env list \<Rightarrow> monitor_event list" where
  "run [] = []"
| "run (env # envs) = cycle env @ run envs"

section \<open>SystemDashboard: the pinned process\<close>

text \<open>
  \<open>psutil_Process pid\<close> is the outcome of \<^verbatim>\<open>psutil.Process(pid)\<close> followed by
  \<^verbatim>\<open>name()\<close>, \<^verbatim>\<open>cpu_percent()\<close> and \<^verbatim>\<open>memory_info().rss\<close>;
  \<open>psutil_terminate pid\<close> that of \<^verbatim>\<open>psutil.Process(pid).terminate()\<close>.
\<close>

record proc_env =
  psutil_Process :: "int \<Rightarrow> (string \<times> rat \<times> nat) result"
  psutil_terminate :: "int \<Rightarrow> unit result"

text \<open>
  A row of the process table. The cells hold texts made from these values; column 0 holds
  \<^verbatim>\<open>str(pid)\<close>, which \<^verbatim>\<open>int\<close> reads back.
\<close>

type_synonym display_row = "int \<times> string \<times> rat \<times> nat"

record dashboard =
  pinned_pid :: "int option"
  process_table :: "display_row list"

text \<open>
  Lines 382 to 388 of \<^verbatim>\<open>_update_processes\<close>: the new pinned pid and the list that
  the rest of the method shows. \<^verbatim>\<open>if self.pinned_pid:\<close> holds for a pid that is
  neither \<^verbatim>\<open>None\<close> nor 0; the bare \<^verbatim>\<open>except\<close> catches whatever the query raises.
\<close>

fun reconcile :: "proc_env \<Rightarrow> int option \<Rightarrow> proc_row list \<Rightarrow> int option \<times> proc_row list" where
  "reconcile penv None procs = (None, procs)"
| "reconcile penv (Some pid) procs =
     (if pid \<noteq> 0 then
        (case psutil_Process penv pid of
           Inr (name, cpu_percent, rss) \<Rightarrow>
             (Some pid, (pid, name, Some cpu_percent, rss) # filter (\<lambda>proc. row_pid proc \<noteq> pid) procs)
         | Inl e \<Rightarrow> (None, procs))
      else (Some pid, procs))"

text \<open>
  The rows shown, lines 390 to 395: formatting a \<^verbatim>\<open>None\<close> with \<^verbatim>\<open>.1f\<close> raises
  \<^verbatim>\<open>TypeError\<close>.
\<close>

fun display :: "proc_row list \<Rightarrow> display_row list result" where
  "display [] = Inr []"
| "display ((pid, name, cpu_percent, rss) # ps) =
     (case cpu_percent of None \<Rightarrow> Inl TypeError | Some c \<Rightarrow>
      (case display ps of Inl e \<Rightarrow> Inl e | Inr rows \<Rightarrow> Inr ((pid, name, c, rss) # rows)))"

text \<open>
  \<^verbatim>\<open>_update_processes\<close>. The pinned pid is assigned before the rows are formatted, so
  an exception raised by the formatting leaves the new pinned pid and the old table.
  \<^verbatim>\<open>_highlight_pinned_process\<close> changes the background colours only.
\<close>

definition update_processes :: "proc_env \<Rightarrow> dashboard \<Rightarrow> proc_row list \<Rightarrow> py_error option \<times> dashboard" where
  "update_processes penv st procs =
     (case reconcile penv (pinned_pid st) procs of (pin, procs') \<Rightarrow>
        (case display (take 100 procs') of
           Inl e \<Rightarrow> (Some e, st\<lparr>pinned_pid := pin\<rparr>)
         | Inr rows \<Rightarrow> (None, st\<lparr>pinned_pid := pin, process_table := rows\<rparr>)))"

text \<open>\<^verbatim>\<open>self.pinned_pid = pid if self.pinned_pid != pid else None\<close>\<close>

definition toggle :: "int option \<Rightarrow> int \<Rightarrow> int option" where
  "toggle pinned pid = (if pinned \<noteq> Some pid then Some pid else None)"

text \<open>
  \<^verbatim>\<open>_toggle_pinned_process(row, _)\<close>, the slot of \<^verbatim>\<open>cellClicked\<close>: the pid is read
  from column 0 of the clicked row. A row the table does not have has no item, and
  \<^verbatim>\<open>None.text()\<close> raises \<^verbatim>\<open>AttributeError\<close> before anything is assigned.
\<close>

definition toggle_pinned_process :: "dashboard \<Rightarrow> nat \<Rightarrow> dashboard result" where
  "toggle_pinned_process st row =
     (if row < length (process_table st)
      then Inr (st\<lparr>pinned_pid := toggle (pinned_pid st) (fst (process_table st ! row))\<rparr>)
      else Inl AttributeError)"

section \<open>SystemDashboard: terminating a process\<close>

datatype message =
    Information
  | Critical py_error
  | Warning

text \<open>
  \<^verbatim>\<open>_kill_pinned_process\<close>, the slot of Ctrl+Z. \<open>confirm\<close> is the answer to the
  question box. The assignment \<^verbatim>\<open>self.pinned_pid = None\<close> follows the call of
  \<^verbatim>\<open>terminate\<close> inside the \<^verbatim>\<open>try\<close>.
\<close>

definition kill_pinned_process :: "proc_env \<Rightarrow> bool \<Rightarrow> dashboard \<Rightarrow> message option \<times> dashboard" where
  "kill_pinned_process penv confirm st =
     (case pinned_pid st of
        None \<Rightarrow> (Some Warning, st)
      | Some pid \<Rightarrow>
          if pid \<noteq> 0 then
            (if confirm then
               (case psutil_terminate penv pid of
                  Inr u \<Rightarrow> (Some Information, st\<lparr>pinned_pid := None\<rparr>)
                | Inl e \<Rightarrow> (Some (Critical e), st))
             else (None, st))
          else (Some Warning, st))"

text \<open>
  \<^verbatim>\<open>_kill_process\<close>, the slot of the button. \<open>current_row\<close> is
  \<^verbatim>\<open>self.process_table.currentRow()\<close>, which is -1 when no row is selected.
\<close>

definition kill_process :: "proc_env \<Rightarrow> int \<Rightarrow> dashboard \<Rightarrow> message option \<times> dashboard" where
  "kill_process penv current_row st =
     (if current_row \<ge> 0 then
        (if nat current_row < length (process_table st) then
           (case psutil_terminate penv (fst (process_table st ! nat current_row)) of
              Inr u \<Rightarrow> (Some Information, st)
            | Inl e \<Rightarrow> (Some (Critical e), st))
         else (Some (Critical AttributeError), st))
      else (None, st))"

text \<open>Two clicks on the same row, with nothing in between.\<close>

definition toggle_twice :: "dashboard \<Rightarrow> nat \<Rightarrow> dashboard result" where
  "toggle_twice st row =
     (case toggle_pinned_process st row of
        Inl e \<Rightarrow> Inl e
      | Inr st' \<Rightarrow> toggle_pinned_process st' row)"

section \<open>Hosts and process tables used as examples\<close>

definition ps_ok :: "pinfo list" where
  "ps_ok =
     [\<lparr>info_pid = 1, info_name = Some ''init'', info_cpu_percent = Some 0, info_memory_info = Some 4096\<rparr>,
      \<lparr>info_pid = 2, info_name = Some [], info_cpu_percent = Some 0, info_memory_info = Some 0\<rparr>,
      \<lparr>info_pid = 7, info_name = Some ''sh'', info_cpu_percent = Some 5, info_memory_info = Some 2048\<rparr>,
      \<lparr>info_pid = 8, info_name = None, info_cpu_percent = None, info_memory_info = None\<rparr>,
      \<lparr>info_pid = 9, info_name = Some ''vim'', info_cpu_percent = Some 0, info_memory_info = Some 8192\<rparr>]"

definition host_ok :: os_env where
  "host_ok =
     \<lparr>cpu_model_read = Inr ''Xeon'',
      cpu_temp_read = Inl PermissionError,
      psutil_cpu_freq = Inr (Some 2000),
      psutil_cpu_count_physical = Inr (Some 2),
      psutil_cpu_count_logical = Inr (Some 4),
      psutil_cpu_percent = Inr 5,
      GPUtil_getGPUs = Inr [],
      psutil_virtual_memory = Inr \<lparr>vm_total = 100, vm_used = 40, vm_percent = 40\<rparr>,
      psutil_disk_partitions = Inr [\<lparr>device = ''/dev/sda1'', mountpoint = ''/''\<rparr>],
      psutil_disk_usage = (\<lambda>m. Inr \<lparr>du_total = 50, du_used = 20, du_percent = 40\<rparr>),
      psutil_process_iter = Inr ps_ok,
      psutil_net_io_counters = Inr (Some \<lparr>io_bytes_sent = 10, io_bytes_recv = 20\<rparr>),
      psutil_net_if_addrs = Inr [(''lo'', [''127.0.0.1'']), (''eth0'', [''10.0.0.2''])],
      psutil_net_if_stats = Inr [(''lo'', True)]\<rparr>"

definition snap_ok :: snapshot where
  "snap_ok =
     \<lparr>cpu = \<lparr>Model = ''Xeon'', Cores = (Some 2, Some 4), Frequency = GHz 2,
              Temperature = Some ''N/A'', Load = 5\<rparr>,
      gpu = [],
      memory = \<lparr>mem_total = 100, mem_used = 40, mem_percent = 40\<rparr>,
      disk = [\<lparr>disk_device = ''sda1'', disk_mount = ''/'', disk_total = 50, disk_used = 20,
               disk_percent = 40\<rparr>],
      processes = [(7, ''sh'', Some 5, 2048), (1, ''init'', Some 0, 4096), (9, ''vim'', Some 0, 8192)],
      network = \<lparr>interfaces =
        [(''lo'', \<lparr>addresses = [''127.0.0.1''],
                  stats = \<lparr>bytes_sent = 10, bytes_recv = 20, is_up = True\<rparr>\<rparr>),
         (''eth0'', \<lparr>addresses = [''10.0.0.2''],
                    stats = \<lparr>bytes_sent = 10, bytes_recv = 20, is_up = False\<rparr>\<rparr>)]\<rparr>\<rparr>"

definition host_gpu_fails :: os_env where
  "host_gpu_fails = host_ok\<lparr>GPUtil_getGPUs := Inl ValueError\<rparr>"

definition procs_alive :: proc_env where
  "procs_alive =
     \<lparr>psutil_Process = (\<lambda>pid. Inr (''vim'', 1, 8192)), psutil_terminate = (\<lambda>pid. Inr ())\<rparr>"

definition procs_gone :: proc_env where
  "procs_gone =
     \<lparr>psutil_Process = (\<lambda>pid. Inl NoSuchProcess), psutil_terminate = (\<lambda>pid. Inl NoSuchProcess)\<rparr>"

section \<open>The collectors on the example host\<close>

lemma host_ok_cpu: "get_cpu_data host_ok = Inr (cpu snap_ok)"
  by (simp add: get_cpu_data_def get_cpu_model_def get_cpu_temp_def host_ok_def snap_ok_def)

lemma host_ok_gpu: "get_gpu_data host_ok = Inr (gpu snap_ok)"
  by (simp add: get_gpu_data_def host_ok_def snap_ok_def)

lemma host_ok_memory: "get_memory_data host_ok = Inr (memory snap_ok)"
  by (simp add: get_memory_data_def host_ok_def snap_ok_def)

lemma host_ok_disk: "get_disk_data host_ok = Inr (disk snap_ok)"
  by (simp add: get_disk_data_def split_last_def host_ok_def snap_ok_def)

lemma ps_ok_rows:
  "process_rows ps_ok = Inr [(1, ''init'', Some 0, 4096), (7, ''sh'', Some 5, 2048), (9, ''vim'', Some 0, 8192)]"
  by (simp add: ps_ok_def)

lemma host_ok_processes: "get_process_data host_ok = Inr (processes snap_ok)"
  by (simp add: get_process_data_def ps_ok_rows sorted_reverse_def host_ok_def snap_ok_def)

lemma host_ok_network: "get_network_data host_ok = Inr (network snap_ok)"
  by (simp add: get_network_data_def iface_entry_def host_ok_def snap_ok_def)

section \<open>Facts about the model\<close>

lemma collect_data_Inr:
  "collect_data env = Inr s \<longleftrightarrow>
     get_cpu_data env = Inr (cpu s) \<and> get_gpu_data env = Inr (gpu s) \<and>
     get_memory_data env = Inr (memory s) \<and> get_disk_data env = Inr (disk s) \<and>
     get_process_data env = Inr (processes s) \<and> get_network_data env = Inr (network s)"
  by (cases s) (auto simp: collect_data_def split: sum.splits)

lemma collect_host_ok: "collect_data host_ok = Inr snap_ok"
  by (simp add: collect_data_Inr host_ok_cpu host_ok_gpu host_ok_memory host_ok_disk
      host_ok_processes host_ok_network)

lemma collect_data_Inl:
  "(\<exists>e. collect_data env = Inl e) \<longleftrightarrow>
     (\<exists>e. get_cpu_data env = Inl e \<or> get_gpu_data env = Inl e \<or> get_memory_data env = Inl e \<or>
          get_disk_data env = Inl e \<or> get_process_data env = Inl e \<or> get_network_data env = Inl e)"
  by (cases "get_cpu_data env"; cases "get_gpu_data env"; cases "get_memory_data env";
      cases "get_disk_data env"; cases "get_process_data env"; cases "get_network_data env";
      auto simp: collect_data_def)

lemma cycle_Emitted: "cycle env = [Emitted s, Slept 3500] \<longleftrightarrow> collect_data env = Inr s"
  by (simp add: cycle_def split: sum.split)

lemma cycle_Printed: "cycle env = [Printed e] \<longleftrightarrow> collect_data env = Inl e"
  by (simp add: cycle_def split: sum.split)

lemma run_append: "run (xs @ ys) = run xs @ run ys"
  by (induction xs) simp_all

lemma process_rows_pids:
  "process_rows ps = Inr rows \<Longrightarrow>
   map row_pid rows = map info_pid (filter (\<lambda>p. info_name p \<noteq> None \<and> info_name p \<noteq> Some []) ps)"
  by (induction ps arbitrary: rows) (auto split: option.splits if_splits sum.splits)

lemma process_rows_origin:
  "process_rows ps = Inr rows \<Longrightarrow> r \<in> set rows \<Longrightarrow>
   row_name r \<noteq> [] \<and> (\<exists>p \<in> set ps. info_pid p = row_pid r \<and> info_name p = Some (row_name r))"
  by (induction ps arbitrary: rows) (auto split: option.splits if_splits sum.splits)

lemma sorted_reverse_desc: "sorted_wrt (\<lambda>a b. f b \<le> f a) (sorted_reverse f xs)"
proof -
  have "sorted (map f (sort_key f (rev xs)))"
    by (rule sorted_sort_key)
  then have "sorted_wrt (\<lambda>a b. f a \<le> f b) (sort_key f (rev xs))"
    by (simp add: sorted_map)
  then show ?thesis
    by (simp add: sorted_reverse_def sorted_wrt_rev)
qed

lemma sorted_reverse_stable:
  "filter (\<lambda>y. f y = k) (sorted_reverse f xs) = filter (\<lambda>y. f y = k) xs"
proof -
  have "filter (\<lambda>y. f y = k) (sorted_reverse f xs) = rev (filter (\<lambda>y. f y = k) (sort_key f (rev xs)))"
    by (simp add: sorted_reverse_def rev_filter)
  also have "\<dots> = rev (filter (\<lambda>y. f y = k) (rev xs))"
    by (simp only: sort_key_stable)
  also have "\<dots> = filter (\<lambda>y. f y = k) xs"
    by (simp add: rev_filter [symmetric])
  finally show ?thesis .
qed

lemma insort_key_ties:
  "sorted_wrt (\<lambda>a b. f a = f b \<longrightarrow> R a b) ys \<Longrightarrow> \<forall>y \<in> set ys. f x = f y \<longrightarrow> R x y \<Longrightarrow>
   sorted_wrt (\<lambda>a b. f a = f b \<longrightarrow> R a b) (insort_key f x ys)"
  by (induction ys) (auto simp: set_insort_key)

lemma sort_key_ties:
  "sorted_wrt R xs \<Longrightarrow> sorted_wrt (\<lambda>a b. f a = f b \<longrightarrow> R a b) (sort_key f xs)"
  by (induction xs) (auto intro!: insort_key_ties)

lemma sorted_reverse_ties:
  assumes "sorted_wrt R xs"
  shows "sorted_wrt (\<lambda>a b. f a = f b \<longrightarrow> R a b) (sorted_reverse f xs)"
proof -
  from assms have "sorted_wrt (\<lambda>a b. R b a) (rev xs)"
    by (simp add: sorted_wrt_rev)
  then have "sorted_wrt (\<lambda>a b. f a = f b \<longrightarrow> R b a) (sort_key f (rev xs))"
    by (rule sort_key_ties)
  then have "sorted_wrt (\<lambda>a b. f b = f a \<longrightarrow> R a b) (sorted_reverse f xs)"
    by (simp add: sorted_reverse_def sorted_wrt_rev)
  then show ?thesis
    by (rule sorted_wrt_mono_rel [rotated]) simp
qed

lemma distinct_map_sorted_reverse:
  "distinct (map g (sorted_reverse f xs)) = distinct (map g xs)"
  by (simp add: sorted_reverse_def distinct_map)

lemma set_sorted_reverse: "set (sorted_reverse f xs) = set xs"
  by (simp add: sorted_reverse_def)

lemma get_process_data_Inr:
  assumes "get_process_data env = Inr rows"
  shows "\<exists>ps all. psutil_process_iter env = Inr ps \<and> process_rows ps = Inr all \<and>
           rows = take 100 (sorted_reverse row_cpu all)"
  using assms by (auto simp: get_process_data_def split: sum.splits if_splits)

lemma disk_rows_source:
  "disk_rows usage parts = Inr rows \<Longrightarrow> d \<in> set rows \<Longrightarrow>
   \<exists>du. usage (disk_mount d) = Inr du \<and> disk_total d = du_total du \<and> disk_used d = du_used du"
  by (induction parts arbitrary: rows) (auto split: if_splits sum.splits)

lemma display_total:
  "\<forall>r \<in> set ps. row_cpu r \<noteq> None \<Longrightarrow> \<exists>rows. display ps = Inr rows \<and> map fst rows = map row_pid ps"
  by (induction ps rule: display.induct) (auto split: option.splits sum.splits)

lemma update_processes_pin:
  "pinned_pid (snd (update_processes penv st procs)) = fst (reconcile penv (pinned_pid st) procs)"
  by (simp add: update_processes_def split: prod.split sum.split)

lemma reconcile_cpu:
  "\<forall>r \<in> set procs. row_cpu r \<noteq> None \<Longrightarrow>
   \<forall>r \<in> set (snd (reconcile penv pin procs)). row_cpu r \<noteq> None"
  by (cases pin) (auto split: sum.splits prod.splits)

lemma update_processes_table:
  assumes "\<forall>r \<in> set procs. row_cpu r \<noteq> None"
  shows "fst (update_processes penv st procs) = None \<and>
         map fst (process_table (snd (update_processes penv st procs))) =
           map row_pid (take 100 (snd (reconcile penv (pinned_pid st) procs)))"
proof -
  obtain pin procs' where r: "reconcile penv (pinned_pid st) procs = (pin, procs')"
    by (cases "reconcile penv (pinned_pid st) procs")
  from reconcile_cpu [OF assms, of penv "pinned_pid st"] r
  have "\<forall>r \<in> set (take 100 procs'). row_cpu r \<noteq> None"
    by (auto dest: in_set_takeD)
  from display_total [OF this] obtain rows where
    "display (take 100 procs') = Inr rows" "map fst rows = map row_pid (take 100 procs')"
    by blast
  then show ?thesis
    by (simp add: update_processes_def r)
qed

lemma get_network_data_entry:
  assumes "get_network_data env = Inr nd" and "(iface, d) \<in> set (interfaces nd)"
  shows "\<exists>net addrs sts. psutil_net_io_counters env = Inr (Some net) \<and>
           psutil_net_if_addrs env = Inr addrs \<and> psutil_net_if_stats env = Inr sts \<and>
           (iface, addresses d) \<in> set addrs \<and>
           bytes_sent (stats d) = io_bytes_sent net \<and> bytes_recv (stats d) = io_bytes_recv net \<and>
           (map_of sts iface = None \<longrightarrow> is_up (stats d) = False) \<and>
           (\<forall>up. map_of sts iface = Some up \<longrightarrow> is_up (stats d) = up)"
  using assms
  by (auto simp: get_network_data_def iface_entry_def split: sum.splits option.splits if_splits)

lemma get_memory_data_source:
  assumes "get_memory_data env = Inr m"
  shows "\<exists>vm. psutil_virtual_memory env = Inr vm \<and> mem_total m = vm_total vm \<and> mem_used m = vm_used vm"
  using assms by (auto simp: get_memory_data_def split: sum.splits)

lemma get_disk_data_source:
  assumes "get_disk_data env = Inr ds" and "d \<in> set ds"
  shows "\<exists>du. psutil_disk_usage env (disk_mount d) = Inr du \<and>
           disk_total d = du_total du \<and> disk_used d = du_used du"
  using assms by (auto simp: get_disk_data_def split: sum.splits dest: disk_rows_source)

section \<open>The claims\<close>

text \<open>
  Claim C1, as the code has it. A pass of the loop emits a snapshot exactly when each of the six
  collectors returns, and the snapshot then holds their six values. When a collector raises,
  the pass emits no snapshot and prints an exception; the failure of a collector is not
  replaced by a sentinel in the snapshot. Only the readers of the CPU model and of the CPU
  temperature replace their own failure, by the texts \<^verbatim>\<open>Unknown\<close> and \<^verbatim>\<open>N/A\<close>.
\<close>

theorem cycle_emits_iff_every_collector_returns:
  "(cycle env = [Emitted s, Slept 3500] \<longleftrightarrow>
      get_cpu_data env = Inr (cpu s) \<and> get_gpu_data env = Inr (gpu s) \<and>
      get_memory_data env = Inr (memory s) \<and> get_disk_data env = Inr (disk s) \<and>
      get_process_data env = Inr (processes s) \<and> get_network_data env = Inr (network s)) \<and>
   ((\<exists>e. cycle env = [Printed e]) \<longleftrightarrow>
      (\<exists>e. get_cpu_data env = Inl e \<or> get_gpu_data env = Inl e \<or> get_memory_data env = Inl e \<or>
           get_disk_data env = Inl e \<or> get_process_data env = Inl e \<or> get_network_data env = Inl e)) \<and>
   (\<forall>e. cpu_model_read env = Inl e \<longrightarrow> get_cpu_model env = ''Unknown'') \<and>
   (\<forall>e. cpu_temp_read env = Inl e \<longrightarrow> get_cpu_temp env = Some ''N/A'')"
proof -
  have "cycle env = [Emitted s, Slept 3500] \<longleftrightarrow>
      get_cpu_data env = Inr (cpu s) \<and> get_gpu_data env = Inr (gpu s) \<and>
      get_memory_data env = Inr (memory s) \<and> get_disk_data env = Inr (disk s) \<and>
      get_process_data env = Inr (processes s) \<and> get_network_data env = Inr (network s)"
    by (simp only: cycle_Emitted collect_data_Inr)
  moreover have "(\<exists>e. cycle env = [Printed e]) \<longleftrightarrow>
      (\<exists>e. get_cpu_data env = Inl e \<or> get_gpu_data env = Inl e \<or> get_memory_data env = Inl e \<or>
           get_disk_data env = Inl e \<or> get_process_data env = Inl e \<or> get_network_data env = Inl e)"
    by (simp only: cycle_Printed collect_data_Inl)
  moreover have "\<forall>e. cpu_model_read env = Inl e \<longrightarrow> get_cpu_model env = ''Unknown''"
    by (simp add: get_cpu_model_def)
  moreover have "\<forall>e. cpu_temp_read env = Inl e \<longrightarrow> get_cpu_temp env = Some ''N/A''"
    by (simp add: get_cpu_temp_def)
  ultimately show ?thesis by blast
qed

theorem cycle_emits_iff_every_collector_returns_witness:
  "cpu_temp_read host_ok = Inl PermissionError \<and> get_cpu_temp host_ok = Some ''N/A'' \<and>
   cycle host_ok = [Emitted snap_ok, Slept 3500]"
  using cycle_emits_iff_every_collector_returns [of host_ok snap_ok]
  by (simp add: host_ok_cpu host_ok_gpu host_ok_memory host_ok_disk host_ok_processes
      host_ok_network) (simp add: host_ok_def)

text \<open>
  Where the GPU collector raises, the CPU collector has returned, and the pass prints the
  exception and emits no snapshot.
\<close>

theorem gpu_failure_aborts_cycle:
  "get_cpu_data host_gpu_fails = Inr (cpu snap_ok) \<and>
   get_gpu_data host_gpu_fails = Inl ValueError \<and>
   cycle host_gpu_fails = [Printed ValueError]"
  by (simp add: cycle_def collect_data_def get_cpu_data_def get_gpu_data_def get_cpu_model_def
      get_cpu_temp_def host_gpu_fails_def host_ok_def snap_ok_def)

text \<open>
  Claim C7. An exception that leaves the dict literal in some pass is caught and printed, and
  the loop goes on: whatever passes came before and whatever passes follow, the trace is the
  trace of the passes before, the printed exception, and the trace of the passes after.
\<close>

theorem run_continues_after_failed_cycle:
  assumes "collect_data bad = Inl e"
  shows "cycle bad = [Printed e] \<and>
         run (before @ bad # rest) = run before @ Printed e # run rest"
  using assms by (simp add: run_append cycle_def)

theorem run_continues_after_failed_cycle_witness:
  "collect_data host_gpu_fails = Inl ValueError \<and>
   run ([host_ok] @ host_gpu_fails # [host_ok]) =
     [Emitted snap_ok, Slept 3500, Printed ValueError, Emitted snap_ok, Slept 3500]"
proof -
  have h: "collect_data host_gpu_fails = Inl ValueError"
    by (simp add: collect_data_def get_cpu_data_def get_gpu_data_def get_cpu_model_def
        get_cpu_temp_def host_gpu_fails_def host_ok_def)
  from run_continues_after_failed_cycle [OF h, of "[host_ok]" "[host_ok]"] h
  show ?thesis by (simp add: cycle_def collect_host_ok)
qed

text \<open>
  The process list of a snapshot is the first 100 rows of the stable descending sort by cpu of
  the rows kept from the enumeration: rows of equal cpu keep the order of the enumeration.
\<close>

lemma processes_sorted_stably_then_truncated:
  assumes "collect_data env = Inr s"
  shows "\<exists>ps all. psutil_process_iter env = Inr ps \<and> process_rows ps = Inr all \<and>
           processes s = take 100 (sorted_reverse row_cpu all) \<and>
           length (processes s) \<le> 100 \<and>
           sorted_wrt (\<lambda>a b. row_cpu b \<le> row_cpu a) (processes s) \<and>
           (\<forall>k. filter (\<lambda>r. row_cpu r = k) (sorted_reverse row_cpu all) =
                filter (\<lambda>r. row_cpu r = k) all) \<and>
           (distinct (map info_pid ps) \<longrightarrow> distinct (map row_pid (processes s))) \<and>
           (sorted_wrt (<) (map info_pid ps) \<longrightarrow>
              sorted_wrt (\<lambda>a b. row_cpu a = row_cpu b \<longrightarrow> row_pid a < row_pid b) (processes s))"
proof -
  from assms have "get_process_data env = Inr (processes s)"
    by (simp add: collect_data_Inr)
  from get_process_data_Inr [OF this] obtain ps all where
    ps: "psutil_process_iter env = Inr ps" and all: "process_rows ps = Inr all" and
    eq: "processes s = take 100 (sorted_reverse row_cpu all)"
    by blast
  have len: "length (processes s) \<le> 100"
    by (simp add: eq)
  have desc: "sorted_wrt (\<lambda>a b. row_cpu b \<le> row_cpu a) (processes s)"
    using sorted_reverse_desc [of row_cpu all] by (simp add: eq)
  have stable: "\<forall>k. filter (\<lambda>r. row_cpu r = k) (sorted_reverse row_cpu all) =
      filter (\<lambda>r. row_cpu r = k) all"
    by (simp add: sorted_reverse_stable)
  have pids: "map row_pid all =
      map info_pid (filter (\<lambda>p. info_name p \<noteq> None \<and> info_name p \<noteq> Some []) ps)"
    by (rule process_rows_pids [OF all])
  have dist: "distinct (map row_pid (processes s))" if "distinct (map info_pid ps)"
  proof -
    from that have "distinct (map row_pid all)"
      by (simp add: pids distinct_map_filter)
    then have "distinct (map row_pid (sorted_reverse row_cpu all))"
      by (simp add: distinct_map_sorted_reverse)
    then have "distinct (take 100 (map row_pid (sorted_reverse row_cpu all)))"
      by (rule distinct_take)
    then show ?thesis
      by (simp add: eq take_map)
  qed
  have ties: "sorted_wrt (\<lambda>a b. row_cpu a = row_cpu b \<longrightarrow> row_pid a < row_pid b) (processes s)"
    if "sorted_wrt (<) (map info_pid ps)"
  proof -
    from that have "sorted_wrt (<) (map row_pid all)"
      by (simp add: pids sorted_wrt_map sorted_wrt_filter)
    then have "sorted_wrt (\<lambda>a b. row_pid a < row_pid b) all"
      by (simp add: sorted_wrt_map)
    then have "sorted_wrt (\<lambda>a b. row_cpu a = row_cpu b \<longrightarrow> row_pid a < row_pid b)
        (sorted_reverse row_cpu all)"
      by (rule sorted_reverse_ties)
    then show ?thesis
      by (simp add: eq)
  qed
  from ps all eq len desc stable dist ties show ?thesis
    by blast
qed

lemma sorted_wrt_both:
  "sorted_wrt P xs \<Longrightarrow> sorted_wrt Q xs \<Longrightarrow> sorted_wrt (\<lambda>a b. P a b \<and> Q a b) xs"
  by (induction xs) auto

lemma sorted_reverse_cpu_then_pid:
  assumes "sorted_wrt (\<lambda>a b. row_pid a < row_pid b) all"
  shows "sorted_wrt (\<lambda>a b. row_cpu b < row_cpu a \<or> (row_cpu a = row_cpu b \<and> row_pid a < row_pid b))
           (sorted_reverse row_cpu all)"
proof -
  have "sorted_wrt (\<lambda>a b. row_cpu b \<le> row_cpu a \<and> (row_cpu a = row_cpu b \<longrightarrow> row_pid a < row_pid b))
      (sorted_reverse row_cpu all)"
    by (rule sorted_wrt_both [OF sorted_reverse_desc sorted_reverse_ties [OF assms]])
  then show ?thesis
    by (rule sorted_wrt_mono_rel [rotated]) auto
qed

text \<open>
  Claim C2. \<^verbatim>\<open>psutil.process_iter\<close> yields the processes in the order of their pids, each
  pid once; this order of the enumeration is the hypothesis on \<open>ps\<close>. Then the process list
  of every snapshot is sorted by cpu in descending order with rows of equal cpu in ascending
  order of pid, it has at most 100 rows, its pids are distinct, and it is the first 100 rows
  of a list \<open>full\<close> that holds every row kept from the enumeration and is sorted in this way:
  the slice is taken after the sort.
\<close>

theorem processes_sorted_by_cpu_then_pid:
  assumes "collect_data env = Inr s" and "psutil_process_iter env = Inr ps"
    and "sorted_wrt (<) (map info_pid ps)"
  shows "sorted_wrt (\<lambda>a b. row_cpu b < row_cpu a \<or> (row_cpu a = row_cpu b \<and> row_pid a < row_pid b))
           (processes s) \<and>
         length (processes s) \<le> 100 \<and>
         distinct (map row_pid (processes s)) \<and>
         (\<exists>all full. process_rows ps = Inr all \<and> set full = set all \<and> length full = length all \<and>
            sorted_wrt (\<lambda>a b. row_cpu b < row_cpu a \<or> (row_cpu a = row_cpu b \<and> row_pid a < row_pid b))
              full \<and>
            processes s = take 100 full)"
proof -
  from assms(1) have "get_process_data env = Inr (processes s)"
    by (simp add: collect_data_Inr)
  from get_process_data_Inr [OF this] assms(2) obtain all where
    all: "process_rows ps = Inr all" and
    eq: "processes s = take 100 (sorted_reverse row_cpu all)"
    by auto
  let ?full = "sorted_reverse row_cpu all"
  have pids: "map row_pid all =
      map info_pid (filter (\<lambda>p. info_name p \<noteq> None \<and> info_name p \<noteq> Some []) ps)"
    by (rule process_rows_pids [OF all])
  from assms(3) have asc: "sorted_wrt (<) (map row_pid all)"
    by (simp add: pids sorted_wrt_map sorted_wrt_filter)
  then have "sorted_wrt (\<lambda>a b. row_pid a < row_pid b) all"
    by (simp add: sorted_wrt_map)
  then have full: "sorted_wrt
      (\<lambda>a b. row_cpu b < row_cpu a \<or> (row_cpu a = row_cpu b \<and> row_pid a < row_pid b)) ?full"
    by (rule sorted_reverse_cpu_then_pid)
  then have sorted: "sorted_wrt
      (\<lambda>a b. row_cpu b < row_cpu a \<or> (row_cpu a = row_cpu b \<and> row_pid a < row_pid b)) (processes s)"
    by (simp add: eq)
  have len: "length (processes s) \<le> 100"
    by (simp add: eq)
  from asc have "distinct (map row_pid all)"
    by (simp add: strict_sorted_iff)
  then have "distinct (map row_pid ?full)"
    by (simp add: distinct_map_sorted_reverse)
  then have "distinct (take 100 (map row_pid ?full))"
    by (rule distinct_take)
  then have dist: "distinct (map row_pid (processes s))"
    by (simp add: eq take_map)
  have "set ?full = set all" and "length ?full = length all"
    by (simp_all add: sorted_reverse_def)
  with all full eq have "\<exists>all full. process_rows ps = Inr all \<and> set full = set all \<and>
      length full = length all \<and>
      sorted_wrt (\<lambda>a b. row_cpu b < row_cpu a \<or> (row_cpu a = row_cpu b \<and> row_pid a < row_pid b))
        full \<and>
      processes s = take 100 full"
    by blast
  with sorted len dist show ?thesis
    by blast
qed

theorem processes_sorted_by_cpu_then_pid_witness:
  "collect_data host_ok = Inr snap_ok \<and> psutil_process_iter host_ok = Inr ps_ok \<and>
   sorted_wrt (<) (map info_pid ps_ok) \<and>
   processes snap_ok = [(7, ''sh'', Some 5, 2048), (1, ''init'', Some 0, 4096), (9, ''vim'', Some 0, 8192)] \<and>
   sorted_wrt (\<lambda>a b. row_cpu b < row_cpu a \<or> (row_cpu a = row_cpu b \<and> row_pid a < row_pid b))
     (processes snap_ok)"
proof -
  have p: "psutil_process_iter host_ok = Inr ps_ok"
    by (simp add: host_ok_def)
  have o: "sorted_wrt (<) (map info_pid ps_ok)"
    by (simp add: ps_ok_def)
  have r: "processes snap_ok =
      [(7, ''sh'', Some 5, 2048), (1, ''init'', Some 0, 4096), (9, ''vim'', Some 0, 8192)]"
    by (simp add: snap_ok_def)
  from processes_sorted_by_cpu_then_pid [OF collect_host_ok p o] p o r show ?thesis
    by (simp add: collect_host_ok)
qed

text \<open>
  Claim C10. Every row of a snapshot's process list has a non-empty name, and it comes from an
  enumerated process with that name: a process whose name is \<^verbatim>\<open>None\<close> or empty gives no
  row.
\<close>

theorem process_names_nonempty:
  assumes "collect_data env = Inr s" and "r \<in> set (processes s)"
  shows "row_name r \<noteq> [] \<and>
         (\<exists>ps. psutil_process_iter env = Inr ps \<and>
            (\<exists>p \<in> set ps. info_pid p = row_pid r \<and> info_name p = Some (row_name r)))"
proof -
  from assms(1) have "get_process_data env = Inr (processes s)"
    by (simp add: collect_data_Inr)
  from get_process_data_Inr [OF this] obtain ps all where
    ps: "psutil_process_iter env = Inr ps" and all: "process_rows ps = Inr all" and
    eq: "processes s = take 100 (sorted_reverse row_cpu all)"
    by blast
  from assms(2) have "r \<in> set all"
    by (auto simp: eq set_sorted_reverse dest: in_set_takeD)
  from process_rows_origin [OF all this] ps show ?thesis
    by blast
qed

theorem process_names_nonempty_witness:
  "collect_data host_ok = Inr snap_ok \<and> (7, ''sh'', Some 5, 2048) \<in> set (processes snap_ok) \<and>
   row_name (7, ''sh'', Some 5, 2048) \<noteq> []"
proof -
  have m: "(7, ''sh'', Some 5, 2048) \<in> set (processes snap_ok)"
    by (simp add: snap_ok_def)
  from process_names_nonempty [OF collect_host_ok m] m show ?thesis
    by (simp add: collect_host_ok)
qed

text \<open>
  The memory sizes of a snapshot are the sizes \<^verbatim>\<open>psutil.virtual_memory()\<close> returned, and
  the sizes of a disk entry are those \<^verbatim>\<open>psutil.disk_usage\<close> returned for its mount point.
\<close>

lemma memory_and_disk_sizes_copied:
  assumes "collect_data env = Inr s"
  shows "(\<exists>vm. psutil_virtual_memory env = Inr vm \<and>
            mem_total (memory s) = vm_total vm \<and> mem_used (memory s) = vm_used vm) \<and>
         (\<forall>d \<in> set (disk s). \<exists>du. psutil_disk_usage env (disk_mount d) = Inr du \<and>
            disk_total d = du_total du \<and> disk_used d = du_used du)"
proof -
  from assms have m: "get_memory_data env = Inr (memory s)" and d: "get_disk_data env = Inr (disk s)"
    by (simp_all add: collect_data_Inr)
  have "\<forall>d \<in> set (disk s). \<exists>du. psutil_disk_usage env (disk_mount d) = Inr du \<and>
      disk_total d = du_total du \<and> disk_used d = du_used du"
    using get_disk_data_source [OF d] by blast
  with get_memory_data_source [OF m] show ?thesis
    by blast
qed

text \<open>
  Claim C8. \<^verbatim>\<open>psutil\<close> computes the used size of the memory and of a disk from the total
  size, as the total less an amount that is free or as a part of the pages counted in the
  total, so the values it returns have used at most total; this is the hypothesis on the
  two queries. The collectors copy the sizes, so in every snapshot the memory has used at
  most total, and so has every disk entry.
\<close>

theorem used_at_most_total:
  assumes "collect_data env = Inr s"
    and "\<forall>vm. psutil_virtual_memory env = Inr vm \<longrightarrow> vm_used vm \<le> vm_total vm"
    and "\<forall>m du. psutil_disk_usage env m = Inr du \<longrightarrow> du_used du \<le> du_total du"
  shows "mem_used (memory s) \<le> mem_total (memory s) \<and>
         (\<forall>d \<in> set (disk s). disk_used d \<le> disk_total d)"
proof -
  from assms(1) have m: "get_memory_data env = Inr (memory s)" and d: "get_disk_data env = Inr (disk s)"
    by (simp_all add: collect_data_Inr)
  from get_memory_data_source [OF m] assms(2) have "mem_used (memory s) \<le> mem_total (memory s)"
    by auto
  moreover have "disk_used e \<le> disk_total e" if "e \<in> set (disk s)" for e
    using get_disk_data_source [OF d that] assms(3) by auto
  ultimately show ?thesis
    by blast
qed

theorem used_at_most_total_witness:
  "collect_data host_ok = Inr snap_ok \<and>
   psutil_virtual_memory host_ok = Inr \<lparr>vm_total = 100, vm_used = 40, vm_percent = 40\<rparr> \<and>
   psutil_disk_usage host_ok ''/'' = Inr \<lparr>du_total = 50, du_used = 20, du_percent = 40\<rparr> \<and>
   mem_used (memory snap_ok) \<le> mem_total (memory snap_ok) \<and>
   disk_used (hd (disk snap_ok)) \<le> disk_total (hd (disk snap_ok))"
proof -
  have v: "\<forall>vm. psutil_virtual_memory host_ok = Inr vm \<longrightarrow> vm_used vm \<le> vm_total vm"
    by (auto simp: host_ok_def)
  have u: "\<forall>m du. psutil_disk_usage host_ok m = Inr du \<longrightarrow> du_used du \<le> du_total du"
    by (auto simp: host_ok_def)
  have h: "hd (disk snap_ok) \<in> set (disk snap_ok)"
    by (simp add: snap_ok_def)
  have "psutil_virtual_memory host_ok = Inr \<lparr>vm_total = 100, vm_used = 40, vm_percent = 40\<rparr>"
    and "psutil_disk_usage host_ok ''/'' = Inr \<lparr>du_total = 50, du_used = 20, du_percent = 40\<rparr>"
    by (simp_all add: host_ok_def)
  with used_at_most_total [OF collect_host_ok v u] h show ?thesis
    by (simp add: collect_host_ok)
qed

lemma map_of_iface_entry:
  "map_of (map (iface_entry n sts) addrs) iface =
     map_option (\<lambda>as. snd (iface_entry n sts (iface, as))) (map_of addrs iface)"
  by (induction addrs) (auto simp: iface_entry_def)

lemma get_network_data_keys:
  assumes "get_network_data env = Inr nd"
  shows "\<exists>addrs sts. psutil_net_if_addrs env = Inr addrs \<and> psutil_net_if_stats env = Inr sts \<and>
           map fst (interfaces nd) = map fst addrs"
  using assms
  by (auto simp: get_network_data_def iface_entry_def
      split: sum.splits option.splits if_splits)

lemma get_network_data_lookup:
  assumes "get_network_data env = Inr nd" and "psutil_net_if_addrs env = Inr addrs"
    and "psutil_net_if_stats env = Inr sts" and "map_of addrs iface = Some as"
  shows "\<exists>net d. psutil_net_io_counters env = Inr (Some net) \<and>
           map_of (interfaces nd) iface = Some d \<and> addresses d = as \<and>
           bytes_sent (stats d) = io_bytes_sent net \<and> bytes_recv (stats d) = io_bytes_recv net \<and>
           (map_of sts iface = None \<longrightarrow> is_up (stats d) = False) \<and>
           (\<forall>up. map_of sts iface = Some up \<longrightarrow> is_up (stats d) = up)"
  using assms
  by (auto simp: get_network_data_def map_of_iface_entry iface_entry_def
      split: sum.splits option.splits if_splits)

text \<open>
  Claim C9. The network data of a snapshot has one entry for each key of the address dict, in
  the order of its keys. The entry of an interface of the address dict carries the addresses
  of that interface and the two counters of the one call of
  \<^verbatim>\<open>psutil.net_io_counters()\<close>, so all entries carry the same counters; it is reported as
  down when the interface is no key of the stats dict, and with the state of the stats dict
  otherwise. The same holds of every entry met when the entries are gone through.
\<close>

theorem network_entries_share_global_counters:
  assumes "collect_data env = Inr s"
  shows "\<exists>addrs sts. psutil_net_if_addrs env = Inr addrs \<and> psutil_net_if_stats env = Inr sts \<and>
           map fst (interfaces (network s)) = map fst addrs \<and>
           (\<forall>iface as. map_of addrs iface = Some as \<longrightarrow>
              (\<exists>net d. psutil_net_io_counters env = Inr (Some net) \<and>
                 map_of (interfaces (network s)) iface = Some d \<and> addresses d = as \<and>
                 bytes_sent (stats d) = io_bytes_sent net \<and>
                 bytes_recv (stats d) = io_bytes_recv net \<and>
                 (map_of sts iface = None \<longrightarrow> is_up (stats d) = False) \<and>
                 (\<forall>up. map_of sts iface = Some up \<longrightarrow> is_up (stats d) = up))) \<and>
           (\<forall>iface d. (iface, d) \<in> set (interfaces (network s)) \<longrightarrow>
              (\<exists>net. psutil_net_io_counters env = Inr (Some net) \<and>
                 (iface, addresses d) \<in> set addrs \<and>
                 bytes_sent (stats d) = io_bytes_sent net \<and>
                 bytes_recv (stats d) = io_bytes_recv net \<and>
                 (map_of sts iface = None \<longrightarrow> is_up (stats d) = False) \<and>
                 (\<forall>up. map_of sts iface = Some up \<longrightarrow> is_up (stats d) = up)))"
proof -
  from assms have g: "get_network_data env = Inr (network s)"
    by (simp add: collect_data_Inr)
  from get_network_data_keys [OF g] obtain addrs sts where
    a: "psutil_net_if_addrs env = Inr addrs" and t: "psutil_net_if_stats env = Inr sts" and
    k: "map fst (interfaces (network s)) = map fst addrs"
    by blast
  have l: "\<forall>iface as. map_of addrs iface = Some as \<longrightarrow>
      (\<exists>net d. psutil_net_io_counters env = Inr (Some net) \<and>
         map_of (interfaces (network s)) iface = Some d \<and> addresses d = as \<and>
         bytes_sent (stats d) = io_bytes_sent net \<and>
         bytes_recv (stats d) = io_bytes_recv net \<and>
         (map_of sts iface = None \<longrightarrow> is_up (stats d) = False) \<and>
         (\<forall>up. map_of sts iface = Some up \<longrightarrow> is_up (stats d) = up))"
    by (intro allI impI) (rule get_network_data_lookup [OF g a t])
  have e: "\<forall>iface d. (iface, d) \<in> set (interfaces (network s)) \<longrightarrow>
      (\<exists>net. psutil_net_io_counters env = Inr (Some net) \<and>
         (iface, addresses d) \<in> set addrs \<and>
         bytes_sent (stats d) = io_bytes_sent net \<and>
         bytes_recv (stats d) = io_bytes_recv net \<and>
         (map_of sts iface = None \<longrightarrow> is_up (stats d) = False) \<and>
         (\<forall>up. map_of sts iface = Some up \<longrightarrow> is_up (stats d) = up))"
  proof (intro allI impI)
    fix iface d
    assume "(iface, d) \<in> set (interfaces (network s))"
    from get_network_data_entry [OF g this] a t
    show "\<exists>net. psutil_net_io_counters env = Inr (Some net) \<and>
         (iface, addresses d) \<in> set addrs \<and>
         bytes_sent (stats d) = io_bytes_sent net \<and>
         bytes_recv (stats d) = io_bytes_recv net \<and>
         (map_of sts iface = None \<longrightarrow> is_up (stats d) = False) \<and>
         (\<forall>up. map_of sts iface = Some up \<longrightarrow> is_up (stats d) = up)"
      by auto
  qed
  from a t k l e show ?thesis
    by (intro exI [where x = addrs] exI [where x = sts] conjI)
qed

theorem network_entries_share_global_counters_witness:
  "collect_data host_ok = Inr snap_ok \<and>
   psutil_net_if_addrs host_ok = Inr [(''lo'', [''127.0.0.1'']), (''eth0'', [''10.0.0.2''])] \<and>
   psutil_net_if_stats host_ok = Inr [(''lo'', True)] \<and>
   map_of [(''lo'', True)] ''eth0'' = None \<and>
   map_of (interfaces (network snap_ok)) ''eth0'' =
     Some \<lparr>addresses = [''10.0.0.2''],
           stats = \<lparr>bytes_sent = 10, bytes_recv = 20, is_up = False\<rparr>\<rparr> \<and>
   map fst (interfaces (network snap_ok)) = [''lo'', ''eth0'']"
proof -
  have a: "psutil_net_if_addrs host_ok =
      Inr [(''lo'', [''127.0.0.1'']), (''eth0'', [''10.0.0.2''])]"
    and t: "psutil_net_if_stats host_ok = Inr [(''lo'', True)]"
    by (simp_all add: host_ok_def)
  have n: "map_of [(''lo'', True)] ''eth0'' = None"
    by simp
  have m: "map_of (interfaces (network snap_ok)) ''eth0'' =
      Some \<lparr>addresses = [''10.0.0.2''],
            stats = \<lparr>bytes_sent = 10, bytes_recv = 20, is_up = False\<rparr>\<rparr>"
    and k: "map fst (interfaces (network snap_ok)) = [''lo'', ''eth0'']"
    by (simp_all add: snap_ok_def)
  from network_entries_share_global_counters [OF collect_host_ok] a t n m k show ?thesis
    by (simp add: collect_host_ok)
qed

text \<open>
  Claim C3, as the code has it. With a pinned pid other than 0, the pinned pid is
  \<^verbatim>\<open>None\<close> after \<^verbatim>\<open>_update_processes\<close> exactly when the live query of that pid
  raises, whether or not the list has a row of that pid; the list is then shown as it came.
  The exception of the query is caught, and the method raises nothing when every row of the
  list has a cpu value.
\<close>

theorem pin_cleared_iff_live_query_fails:
  assumes "pinned_pid st = Some pid" and "pid \<noteq> 0"
  shows "(pinned_pid (snd (update_processes penv st procs)) = None \<longleftrightarrow>
            (\<exists>e. psutil_Process penv pid = Inl e)) \<and>
         (\<forall>e. psutil_Process penv pid = Inl e \<longrightarrow>
            reconcile penv (Some pid) procs = (None, procs)) \<and>
         ((\<forall>r \<in> set procs. row_cpu r \<noteq> None) \<longrightarrow> fst (update_processes penv st procs) = None)"
proof -
  have "pinned_pid (snd (update_processes penv st procs)) = None \<longleftrightarrow>
      (\<exists>e. psutil_Process penv pid = Inl e)"
    using assms by (cases "psutil_Process penv pid") (auto simp: update_processes_pin)
  moreover have "\<forall>e. psutil_Process penv pid = Inl e \<longrightarrow>
      reconcile penv (Some pid) procs = (None, procs)"
    using assms by simp
  moreover have "(\<forall>r \<in> set procs. row_cpu r \<noteq> None) \<longrightarrow> fst (update_processes penv st procs) = None"
    using update_processes_table [of procs penv st] by blast
  ultimately show ?thesis by blast
qed

theorem pin_cleared_iff_live_query_fails_witness:
  "pinned_pid \<lparr>pinned_pid = Some 42, process_table = []\<rparr> = Some 42 \<and> (42::int) \<noteq> 0 \<and>
   psutil_Process procs_gone 42 = Inl NoSuchProcess \<and>
   update_processes procs_gone \<lparr>pinned_pid = Some 42, process_table = []\<rparr> [(7, ''sh'', Some 5, 2048)] =
     (None, \<lparr>pinned_pid = None, process_table = [(7, ''sh'', 5, 2048)]\<rparr>)"
  using pin_cleared_iff_live_query_fails
    [of "\<lparr>pinned_pid = Some 42, process_table = []\<rparr>" 42 procs_gone "[(7, ''sh'', Some 5, 2048)]"]
  by (simp add: update_processes_def procs_gone_def)

text \<open>
  The pinned pid 42 has no row in the list, its live query returns: the pin stays, and a row
  for 42 is put first.
\<close>

theorem pin_kept_when_absent_from_list:
  "update_processes procs_alive \<lparr>pinned_pid = Some 42, process_table = []\<rparr> [(7, ''sh'', Some 5, 2048)] =
     (None, \<lparr>pinned_pid = Some 42, process_table = [(42, ''vim'', 1, 8192), (7, ''sh'', 5, 2048)]\<rparr>)"
  by (simp add: update_processes_def procs_alive_def)

text \<open>
  Claim C5, as the code has it. With a pinned pid other than 0 whose live query returns, the
  reconciled list starts with the row made from the answer of the query, followed by the
  rows of the given list whose pid differs from the pinned pid, in their order; no other row
  has the pinned pid, and the table shows the pinned pid in its first row and in no other.
\<close>

theorem pinned_row_first_when_live_query_returns:
  assumes "pid \<noteq> 0" and "psutil_Process penv pid = Inr (name, c, rss)"
  shows "reconcile penv (Some pid) procs =
           (Some pid, (pid, name, Some c, rss) # filter (\<lambda>proc. row_pid proc \<noteq> pid) procs) \<and>
         pid \<notin> set (map row_pid (filter (\<lambda>proc. row_pid proc \<noteq> pid) procs)) \<and>
         (pinned_pid st = Some pid \<and> (\<forall>r \<in> set procs. row_cpu r \<noteq> None) \<longrightarrow>
            (\<exists>rest. map fst (process_table (snd (update_processes penv st procs))) = pid # rest \<and>
               pid \<notin> set rest))"
proof -
  have r: "reconcile penv (Some pid) procs =
      (Some pid, (pid, name, Some c, rss) # filter (\<lambda>proc. row_pid proc \<noteq> pid) procs)"
    using assms by simp
  have n: "pid \<notin> set (map row_pid (filter (\<lambda>proc. row_pid proc \<noteq> pid) procs))"
    by auto
  have t: "\<exists>rest. map fst (process_table (snd (update_processes penv st procs))) = pid # rest \<and>
      pid \<notin> set rest"
    if p: "pinned_pid st = Some pid" and a: "\<forall>r \<in> set procs. row_cpu r \<noteq> None"
  proof -
    let ?rest = "map row_pid (take 99 (filter (\<lambda>proc. row_pid proc \<noteq> pid) procs))"
    from update_processes_table [OF a, of penv st, unfolded p r]
    have t: "map fst (process_table (snd (update_processes penv st procs))) = pid # ?rest"
      by simp
    have m: "pid \<notin> set ?rest"
      by (auto dest: in_set_takeD)
    show ?thesis
      by (rule exI [where x = ?rest]) (rule conjI [OF t m])
  qed
  show ?thesis
  proof (intro conjI impI)
    show "reconcile penv (Some pid) procs =
        (Some pid, (pid, name, Some c, rss) # filter (\<lambda>proc. row_pid proc \<noteq> pid) procs)"
      by (rule r)
    show "pid \<notin> set (map row_pid (filter (\<lambda>proc. row_pid proc \<noteq> pid) procs))"
      by (rule n)
    assume h: "pinned_pid st = Some pid \<and> (\<forall>r \<in> set procs. row_cpu r \<noteq> None)"
    show "\<exists>rest. map fst (process_table (snd (update_processes penv st procs))) = pid # rest \<and>
        pid \<notin> set rest"
      by (rule t [OF conjunct1 [OF h] conjunct2 [OF h]])
  qed
qed

theorem pinned_row_first_when_live_query_returns_witness:
  "(42::int) \<noteq> 0 \<and> psutil_Process procs_alive 42 = Inr (''vim'', 1, 8192) \<and>
   reconcile procs_alive (Some 42) [(7, ''sh'', Some 5, 2048), (42, ''vim'', Some 0, 4096)] =
     (Some 42, [(42, ''vim'', Some 1, 8192), (7, ''sh'', Some 5, 2048)])"
  using pinned_row_first_when_live_query_returns
    [of 42 procs_alive "''vim''" 1 8192 "[(7, ''sh'', Some 5, 2048), (42, ''vim'', Some 0, 4096)]"]
  by (simp add: procs_alive_def)

text \<open>
  The list has a row of the pinned pid 42, the live query raises: the rows stay where they
  are and the pin is cleared.
\<close>

theorem pinned_row_not_moved_when_query_fails:
  "update_processes procs_gone \<lparr>pinned_pid = Some 42, process_table = []\<rparr>
      [(7, ''sh'', Some 5, 2048), (42, ''vim'', Some 0, 4096)] =
     (None, \<lparr>pinned_pid = None, process_table = [(7, ''sh'', 5, 2048), (42, ''vim'', 0, 4096)]\<rparr>)"
  by (simp add: update_processes_def procs_gone_def)

text \<open>
  Claim C4, as the code has it. Clicking twice on a row of pid \<open>pid\<close> leaves the pinned pid
  as it was when nothing was pinned or when \<open>pid\<close> was pinned; when another pid was pinned,
  nothing is pinned after the two clicks.
\<close>

theorem toggle_twice_result:
  assumes "row < length (process_table st)" and "fst (process_table st ! row) = pid"
  shows "toggle_twice st row =
           Inr (st\<lparr>pinned_pid := (if pinned_pid st = Some pid then Some pid else None)\<rparr>) \<and>
         (toggle_twice st row = Inr st \<longleftrightarrow> pinned_pid st = None \<or> pinned_pid st = Some pid)"
  using assms
  by (cases st) (auto simp: toggle_twice_def toggle_pinned_process_def toggle_def)

theorem toggle_twice_result_witness:
  "(0::nat) < length (process_table \<lparr>pinned_pid = Some 7, process_table = [(7, ''sh'', 5, 2048)]\<rparr>) \<and>
   toggle_twice \<lparr>pinned_pid = Some 7, process_table = [(7, ''sh'', 5, 2048)]\<rparr> 0 =
     Inr \<lparr>pinned_pid = Some 7, process_table = [(7, ''sh'', 5, 2048)]\<rparr>"
  using toggle_twice_result [of 0 "\<lparr>pinned_pid = Some 7, process_table = [(7, ''sh'', 5, 2048)]\<rparr>" 7]
  by simp

text \<open>
  With pid 3 pinned, two clicks on the row of pid 7 leave nothing pinned.
\<close>

theorem toggle_twice_loses_other_pin:
  "toggle_twice \<lparr>pinned_pid = Some 3, process_table = [(7, ''sh'', 5, 2048)]\<rparr> 0 =
     Inr \<lparr>pinned_pid = None, process_table = [(7, ''sh'', 5, 2048)]\<rparr>"
  by (simp add: toggle_twice_def toggle_pinned_process_def toggle_def)

text \<open>
  Claim C6, as the code has it. Both commands end with a message and raise nothing. The
  command on the pinned process (pinned pid other than 0, question confirmed) sets the pinned
  pid to \<^verbatim>\<open>None\<close> when \<^verbatim>\<open>terminate\<close> returns and leaves the state as it was when it
  raises or when the question is declined. The command on the selected row never changes the
  pinned pid, whether \<^verbatim>\<open>terminate\<close> returns or raises.
\<close>

theorem terminate_outcomes:
  "(pinned_pid st = Some pid \<and> pid \<noteq> 0 \<longrightarrow>
      (psutil_terminate penv pid = Inr () \<longrightarrow>
         kill_pinned_process penv True st = (Some Information, st\<lparr>pinned_pid := None\<rparr>)) \<and>
      (\<forall>e. psutil_terminate penv pid = Inl e \<longrightarrow>
         kill_pinned_process penv True st = (Some (Critical e), st)) \<and>
      kill_pinned_process penv False st = (None, st)) \<and>
   snd (kill_process penv current_row st) = st \<and>
   (0 \<le> current_row \<and> nat current_row < length (process_table st) \<longrightarrow>
      (psutil_terminate penv (fst (process_table st ! nat current_row)) = Inr () \<longrightarrow>
         fst (kill_process penv current_row st) = Some Information) \<and>
      (\<forall>e. psutil_terminate penv (fst (process_table st ! nat current_row)) = Inl e \<longrightarrow>
         fst (kill_process penv current_row st) = Some (Critical e)))"
  by (auto simp: kill_pinned_process_def kill_process_def split: sum.splits)

theorem terminate_outcomes_witness:
  "kill_pinned_process procs_alive True \<lparr>pinned_pid = Some 42, process_table = [(42, ''vim'', 1, 8192)]\<rparr> =
     (Some Information, \<lparr>pinned_pid = None, process_table = [(42, ''vim'', 1, 8192)]\<rparr>) \<and>
   kill_pinned_process procs_gone True \<lparr>pinned_pid = Some 42, process_table = [(42, ''vim'', 1, 8192)]\<rparr> =
     (Some (Critical NoSuchProcess), \<lparr>pinned_pid = Some 42, process_table = [(42, ''vim'', 1, 8192)]\<rparr>)"
  using terminate_outcomes
    [of "\<lparr>pinned_pid = Some 42, process_table = [(42, ''vim'', 1, 8192)]\<rparr>" 42 procs_alive 0]
    terminate_outcomes
    [of "\<lparr>pinned_pid = Some 42, process_table = [(42, ''vim'', 1, 8192)]\<rparr>" 42 procs_gone 0]
  by (simp add: procs_alive_def procs_gone_def)

text \<open>
  The button terminates the selected row, which is the pinned process, and the pin stays.
\<close>

theorem kill_button_keeps_pin:
  "kill_process procs_alive 0 \<lparr>pinned_pid = Some 42, process_table = [(42, ''vim'', 1, 8192)]\<rparr> =
     (Some Information, \<lparr>pinned_pid = Some 42, process_table = [(42, ''vim'', 1, 8192)]\<rparr>)"
  by (simp add: kill_process_def procs_alive_def)

end
